theory Spec2Isabelle
  imports Main "HOL-Library.Sublist"
begin

section \<open>Python values and exceptions\<close>

text \<open>
  The exceptions this program can meet. \<open>except Exception\<close> catches the classes derived
  from \<open>Exception\<close> only; \<open>KeyboardInterrupt\<close>, \<open>SystemExit\<close>, \<open>GeneratorExit\<close> and
  any other class derived directly from \<open>BaseException\<close> pass through it.
\<close>

datatype exception =
    KeyError string
  | IndexError
  | OtherException string
  | KeyboardInterrupt
  | SystemExit
  | GeneratorExit
  | OtherBaseException string

text \<open>\<open>isinstance(e, Exception)\<close>\<close>

fun is_Exception :: "exception \<Rightarrow> bool" where
  "is_Exception (KeyError k) = True"
| "is_Exception IndexError = True"
| "is_Exception (OtherException c) = True"
| "is_Exception KeyboardInterrupt = False"
| "is_Exception SystemExit = False"
| "is_Exception GeneratorExit = False"
| "is_Exception (OtherBaseException c) = False"

type_synonym 'a result = "exception + 'a"

text \<open>
  The values a tester can receive and return (\<open>Any\<close>). \<open>PyObject n r\<close> is an object of a
  user class, \<open>r\<close> being what its \<open>__bool__\<close> does: return a boolean or raise.
\<close>

datatype pyval =
    PyNone
  | PyBool bool
  | PyInt int
  | PyStr string
  | PyList "pyval list"
  | PyExc exception
  | PyObject string "exception + bool"

text \<open>The truth test that \<open>not v\<close> performs on a value.\<close>

fun truth :: "pyval \<Rightarrow> bool result" where
  "truth PyNone = Inr False"
| "truth (PyBool b) = Inr b"
| "truth (PyInt i) = Inr (i \<noteq> 0)"
| "truth (PyStr s) = Inr (s \<noteq> [])"
| "truth (PyList xs) = Inr (xs \<noteq> [])"
| "truth (PyExc e) = Inr True"
| "truth (PyObject n r) = r"

section \<open>Testers, payloads and the integrations module\<close>

text \<open>A tester: a function of one element with a \<open>__name__\<close>; calling it returns a value or raises.\<close>

record tester =
  fn_name :: string
  fn_call :: "pyval \<Rightarrow> pyval result"

text \<open>The payload is a dict with string keys.\<close>

type_synonym payload = "string \<rightharpoonup> pyval"

text \<open>
  The module \<open>pysellus.integrations\<close> is imported, not defined, by the registrar; it is a
  parameter here. \<open>registered_integrations\<close> is its dict of dicts; the two notification entry
  points take the test name and the payload and either return (\<open>None\<close>) or raise.
\<close>

record integrations =
  registered_integrations :: "string \<rightharpoonup> (string \<rightharpoonup> pyval)"
  notify_element :: "string \<Rightarrow> payload \<Rightarrow> exception option"
  notify_error :: "string \<Rightarrow> payload \<Rightarrow> exception option"

text \<open>What a call of the wrapper does that can be seen from outside, in the order it happens.\<close>

datatype event =
    RegistryAccess string
  | PayloadBuilt payload
  | TesterCall string pyval
  | NotifyElement string payload
  | NotifyError string payload

section \<open>The failure wrapper\<close>

definition make_message_payload :: "pyval \<Rightarrow> string \<Rightarrow> pyval \<Rightarrow> payload" where
  "make_message_payload test_name tester_name element =
     [''test_name'' \<mapsto> test_name,
      ''expect_function'' \<mapsto> PyStr tester_name,
      ''element'' \<mapsto> element]"

text \<open>\<open>integrations.registered_integrations[test_name]['test_description']\<close>: each of the two
  subscriptions raises \<open>KeyError\<close> on a missing key.\<close>

definition lookup_test_description :: "integrations \<Rightarrow> string \<Rightarrow> pyval result" where
  "lookup_test_description I test_name =
     (case registered_integrations I test_name of
        None \<Rightarrow> Inl (KeyError test_name)
      | Some integration \<Rightarrow>
          (case integration ''test_description'' of
             None \<Rightarrow> Inl (KeyError ''test_description'')
           | Some description \<Rightarrow> Inr description))"

text \<open>The body of the \<open>try\<close>: \<open>if not tester(element): integrations.notify_element(...)\<close>.\<close>

definition try_body ::
  "integrations \<Rightarrow> string \<Rightarrow> tester \<Rightarrow> pyval \<Rightarrow> payload \<Rightarrow> event list \<times> unit result" where
  "try_body I test_name tester element payload_message =
     (case fn_call tester element of
        Inl e \<Rightarrow> ([TesterCall (fn_name tester) element], Inl e)
      | Inr v \<Rightarrow>
          (case truth v of
             Inl e \<Rightarrow> ([TesterCall (fn_name tester) element], Inl e)
           | Inr b \<Rightarrow>
               if \<not> b
               then ([TesterCall (fn_name tester) element,
                      NotifyElement test_name payload_message],
                     case notify_element I test_name payload_message of
                       None \<Rightarrow> Inr ()
                     | Some e \<Rightarrow> Inl e)
               else ([TesterCall (fn_name tester) element], Inr ())))"

text \<open>The body of the handler: store the exception under \<open>'error'\<close>, call \<open>notify_error\<close>.\<close>

definition except_body ::
  "integrations \<Rightarrow> string \<Rightarrow> payload \<Rightarrow> exception \<Rightarrow> event list \<times> unit result" where
  "except_body I test_name payload_message e =
     (let payload_message' = payload_message(''error'' \<mapsto> PyExc e)
      in ([NotifyError test_name payload_message'],
          case notify_error I test_name payload_message' of
            None \<Rightarrow> Inr ()
          | Some e' \<Rightarrow> Inl e'))"

text \<open>
  \<open>_on_failure_wrapper(test_name, tester, element)\<close>. The payload is built first, outside
  the \<open>try\<close>; the handler is \<open>except Exception as e\<close>.
\<close>

definition on_failure_wrapper ::
  "integrations \<Rightarrow> string \<Rightarrow> tester \<Rightarrow> pyval \<Rightarrow> event list \<times> unit result" where
  "on_failure_wrapper I test_name tester element =
     (case lookup_test_description I test_name of
        Inl e \<Rightarrow> ([RegistryAccess test_name], Inl e)
      | Inr description \<Rightarrow>
          (let payload_message = make_message_payload description (fn_name tester) element;
               built = [RegistryAccess test_name, PayloadBuilt payload_message];
               (tried, r) = try_body I test_name tester element payload_message
           in case r of
                Inr u \<Rightarrow> (built @ tried, Inr u)
              | Inl e \<Rightarrow>
                  if is_Exception e
                  then (let (handled, r') = except_body I test_name payload_message e
                        in (built @ tried @ handled, r'))
                  else (built @ tried, Inl e)))"

text \<open>The calls of the two notification entry points among the events, in order.\<close>

fun element_notifications :: "event list \<Rightarrow> (string \<times> payload) list" where
  "element_notifications [] = []"
| "element_notifications (NotifyElement n p # evs) = (n, p) # element_notifications evs"
| "element_notifications (ev # evs) = element_notifications evs"

fun error_notifications :: "event list \<Rightarrow> (string \<times> payload) list" where
  "error_notifications [] = []"
| "error_notifications (NotifyError n p # evs) = (n, p) # error_notifications evs"
| "error_notifications (ev # evs) = error_notifications evs"

text \<open>The elements the tester was called on.\<close>

fun tester_calls :: "event list \<Rightarrow> (string \<times> pyval) list" where
  "tester_calls [] = []"
| "tester_calls (TesterCall n x # evs) = (n, x) # tester_calls evs"
| "tester_calls (ev # evs) = tester_calls evs"



section \<open>The stream-to-testers table\<close>

text \<open>A stream handle is an observable object, a dict key by identity: its object id.\<close>

type_synonym stream = nat

text \<open>\<open>partial(_on_failure_wrapper, test_name, tester)\<close>: the wrapper with its first two
  arguments fixed.\<close>

datatype wrapped = Partial string tester

fun call_wrapped :: "integrations \<Rightarrow> wrapped \<Rightarrow> pyval \<Rightarrow> event list \<times> unit result" where
  "call_wrapped I (Partial test_name tester) element = on_failure_wrapper I test_name tester element"

text \<open>The module global \<open>stream_to_testers\<close>, a dict from streams to lists; it is the state
  that the registration functions pass along.\<close>

type_synonym table = "stream \<rightharpoonup> wrapped list"

definition register_tester_for_stream :: "stream \<Rightarrow> wrapped \<Rightarrow> table \<Rightarrow> table" where
  "register_tester_for_stream stream tester stream_to_testers =
     (case stream_to_testers stream of
        Some testers \<Rightarrow> stream_to_testers(stream \<mapsto> testers @ [tester])
      | None \<Rightarrow> stream_to_testers(stream \<mapsto> [tester]))"

text \<open>The closure \<open>tests_registrar\<close> that \<open>expect\<close> returns, with the two variables it
  captures, \<open>stream\<close> and \<open>test_name\<close>, as its first arguments; the recursion is its loop
  over \<open>testers\<close>.\<close>

fun tests_registrar :: "stream \<Rightarrow> string \<Rightarrow> tester list \<Rightarrow> table \<Rightarrow> table" where
  "tests_registrar stream test_name [] stream_to_testers = stream_to_testers"
| "tests_registrar stream test_name (tester # testers) stream_to_testers =
     tests_registrar stream test_name testers
       (register_tester_for_stream stream (Partial test_name tester) stream_to_testers)"

text \<open>The list stored for a stream: what a subscriber to the table finds there, nothing
  when the stream is not a key.\<close>

definition registered_testers :: "table \<Rightarrow> stream \<Rightarrow> wrapped list" where
  "registered_testers stream_to_testers stream =
     (case stream_to_testers stream of None \<Rightarrow> [] | Some testers \<Rightarrow> testers)"

text \<open>One table grows into another: every key is still there and its list has only had
  elements added at the end.\<close>

definition grows :: "table \<Rightarrow> table \<Rightarrow> bool" where
  "grows before after \<longleftrightarrow>
     (\<forall>stream testers. before stream = Some testers \<longrightarrow>
        (\<exists>testers'. after stream = Some testers' \<and> prefix testers testers'))"

section \<open>The call stack and the name of the caller\<close>

text \<open>
  A frame record of \<open>inspect.stack()\<close>, of whose six items the filename (1) and the function
  name (3) are kept. A stack is a list of them, the running function's first, the outermost
  call's last. Every function below that needs the stack takes the stack of its call site
  and puts its own frame in front.
\<close>

record frame_info =
  frame_filename :: string
  frame_function :: string

definition frame_of_get_name_of_expect_caller :: frame_info where
  "frame_of_get_name_of_expect_caller =
     \<lparr>frame_filename = ''pysellus/registrar.py'', frame_function = ''_get_name_of_expect_caller''\<rparr>"

definition frame_of_expect :: frame_info where
  "frame_of_expect = \<lparr>frame_filename = ''pysellus/registrar.py'', frame_function = ''expect''\<rparr>"

definition frame_of_register :: frame_info where
  "frame_of_register = \<lparr>frame_filename = ''pysellus/registrar.py'', frame_function = ''register''\<rparr>"

definition distance_to_setup_function :: nat where
  "distance_to_setup_function = sum_list [1, 1, 1] - 1"

text \<open>\<open>inspect.stack()[distance_to_setup_function][3]\<close>; an index past the end of the list
  raises \<open>IndexError\<close>.\<close>

definition get_name_of_expect_caller :: "frame_info list \<Rightarrow> string result" where
  "get_name_of_expect_caller callers =
     (let stack = frame_of_get_name_of_expect_caller # callers
      in if distance_to_setup_function < length stack
         then Inr (frame_function (stack ! distance_to_setup_function))
         else Inl IndexError)"

text \<open>The local variable \<open>test_name\<close> of \<open>expect\<close>.\<close>

definition expect_test_name :: "frame_info list \<Rightarrow> string result" where
  "expect_test_name callers = get_name_of_expect_caller (frame_of_expect # callers)"

definition expect :: "frame_info list \<Rightarrow> stream \<Rightarrow> (tester list \<Rightarrow> table \<Rightarrow> table) result" where
  "expect callers stream =
     (case expect_test_name callers of
        Inl e \<Rightarrow> Inl e
      | Inr test_name \<Rightarrow> Inr (tests_registrar stream test_name))"

section \<open>Registration\<close>

text \<open>
  A declaration callable: a function of no arguments. Its body runs on the stack it is
  given and on the table, which it leaves changed whether it returns or raises.
\<close>

record callable =
  decl_frame :: frame_info
  decl_body :: "frame_info list \<Rightarrow> table \<Rightarrow> table \<times> unit result"

definition call_declaration ::
  "callable \<Rightarrow> frame_info list \<Rightarrow> table \<Rightarrow> table \<times> unit result" where
  "call_declaration fn callers stream_to_testers =
     decl_body fn (decl_frame fn # callers) stream_to_testers"

text \<open>The loop of \<open>register\<close>. It gives the callables it has invoked, in order, the table
  as they left it, and whether the loop ended or one of them raised.\<close>

fun register_loop ::
  "callable list \<Rightarrow> frame_info list \<Rightarrow> table \<Rightarrow> callable list \<times> table \<times> unit result" where
  "register_loop [] stack stream_to_testers = ([], stream_to_testers, Inr ())"
| "register_loop (fn # fns) stack stream_to_testers =
     (case call_declaration fn stack stream_to_testers of
        (stream_to_testers', Inl e) \<Rightarrow> ([fn], stream_to_testers', Inl e)
      | (stream_to_testers', Inr u) \<Rightarrow>
          (case register_loop fns stack stream_to_testers' of
             (invoked, stream_to_testers'', r) \<Rightarrow> (fn # invoked, stream_to_testers'', r)))"

text \<open>\<open>register(function_list)\<close>: the callables invoked, the table afterwards, and the value
  returned. The global is bound once and never rebound, so the dict it names is one object
  for the whole run; the value returned is that object, here its state after the loop.\<close>

definition register ::
  "callable list \<Rightarrow> frame_info list \<Rightarrow> table \<Rightarrow> callable list \<times> table \<times> table result" where
  "register function_list callers stream_to_testers =
     (case register_loop function_list (frame_of_register # callers) stream_to_testers of
        (invoked, stream_to_testers', Inl e) \<Rightarrow> (invoked, stream_to_testers', Inl e)
      | (invoked, stream_to_testers', Inr u) \<Rightarrow> (invoked, stream_to_testers', Inr stream_to_testers'))"

section \<open>Example inputs\<close>

definition numbers_integration :: "string \<rightharpoonup> pyval" where
  "numbers_integration = [''test_description'' \<mapsto> PyStr ''numbers are positive'']"

definition quiet_integrations :: integrations where
  "quiet_integrations =
     \<lparr>registered_integrations = [''pscheck_numbers'' \<mapsto> numbers_integration],
      notify_element = (\<lambda>n p. None),
      notify_error = (\<lambda>n p. None)\<rparr>"

definition broken_element_integrations :: integrations where
  "broken_element_integrations =
     \<lparr>registered_integrations = [''pscheck_numbers'' \<mapsto> numbers_integration],
      notify_element = (\<lambda>n p. Some (OtherException ''ConnectionError'')),
      notify_error = (\<lambda>n p. None)\<rparr>"

definition interrupted_element_integrations :: integrations where
  "interrupted_element_integrations =
     \<lparr>registered_integrations = [''pscheck_numbers'' \<mapsto> numbers_integration],
      notify_element = (\<lambda>n p. Some KeyboardInterrupt),
      notify_error = (\<lambda>n p. None)\<rparr>"

definition no_integrations :: integrations where
  "no_integrations =
     \<lparr>registered_integrations = Map.empty,
      notify_element = (\<lambda>n p. None),
      notify_error = (\<lambda>n p. None)\<rparr>"

text \<open>\<open>def is_positive(x): return x > 0\<close>, which raises \<open>TypeError\<close> on what is not a number;
  a bool is one, \<open>True\<close> counting as 1 and \<open>False\<close> as 0.\<close>

definition is_positive :: tester where
  "is_positive =
     \<lparr>fn_name = ''is_positive'',
      fn_call = (\<lambda>x. case x of PyInt i \<Rightarrow> Inr (PyBool (0 < i))
                          | PyBool b \<Rightarrow> Inr (PyBool b)
                          | _ \<Rightarrow> Inl (OtherException ''TypeError''))\<rparr>"

text \<open>\<open>def gives_up(x): sys.exit()\<close>\<close>

definition gives_up :: tester where
  "gives_up = \<lparr>fn_name = ''gives_up'', fn_call = (\<lambda>x. Inl SystemExit)\<rparr>"

text \<open>\<open>def says_nothing(x): pass\<close>, which returns \<open>None\<close>.\<close>

definition says_nothing :: tester where
  "says_nothing = \<lparr>fn_name = ''says_nothing'', fn_call = (\<lambda>x. Inr PyNone)\<rparr>"

text \<open>A stream of numbers, and the module that calls \<open>register\<close>.\<close>

definition numbers :: stream where
  "numbers = 1"

definition main_stack :: "frame_info list" where
  "main_stack = [\<lparr>frame_filename = ''run.py'', frame_function = ''<module>''\<rparr>]"

text \<open>\<open>def pscheck_numbers(): expect(numbers)(is_positive, says_nothing)\<close>\<close>

definition pscheck_numbers :: callable where
  "pscheck_numbers =
     \<lparr>decl_frame = \<lparr>frame_filename = ''checks.py'', frame_function = ''pscheck_numbers''\<rparr>,
      decl_body = (\<lambda>stack stream_to_testers.
        case expect stack numbers of
          Inl e \<Rightarrow> (stream_to_testers, Inl e)
        | Inr registrar \<Rightarrow> (registrar [is_positive, says_nothing] stream_to_testers, Inr ()))\<rparr>"

text \<open>\<open>def pscheck_exit(): expect(numbers)(gives_up)\<close>\<close>

definition pscheck_exit :: callable where
  "pscheck_exit =
     \<lparr>decl_frame = \<lparr>frame_filename = ''checks.py'', frame_function = ''pscheck_exit''\<rparr>,
      decl_body = (\<lambda>stack stream_to_testers.
        case expect stack numbers of
          Inl e \<Rightarrow> (stream_to_testers, Inl e)
        | Inr registrar \<Rightarrow> (registrar [gives_up] stream_to_testers, Inr ()))\<rparr>"

text \<open>\<open>def pscheck_broken(): undefined_name\<close>, which raises \<open>NameError\<close>.\<close>

definition pscheck_broken :: callable where
  "pscheck_broken =
     \<lparr>decl_frame = \<lparr>frame_filename = ''checks.py'', frame_function = ''pscheck_broken''\<rparr>,
      decl_body = (\<lambda>stack stream_to_testers. (stream_to_testers, Inl (OtherException ''NameError'')))\<rparr>"

section \<open>What the failure wrapper does\<close>

text \<open>The wrapper once the lookup has succeeded, by what the tester and the entry points do.\<close>

lemma on_failure_wrapper_cases:
  assumes "lookup_test_description I test_name = Inr description"
  shows "on_failure_wrapper I test_name tester element =
     (let p = make_message_payload description (fn_name tester) element;
          built = [RegistryAccess test_name, PayloadBuilt p, TesterCall (fn_name tester) element]
      in case fn_call tester element of
           Inl e \<Rightarrow> if is_Exception e
                    then (built @ [NotifyError test_name (p(''error'' \<mapsto> PyExc e))],
                          case notify_error I test_name (p(''error'' \<mapsto> PyExc e)) of None \<Rightarrow> Inr () | Some e' \<Rightarrow> Inl e')
                    else (built, Inl e)
         | Inr v \<Rightarrow> (case truth v of
              Inl e \<Rightarrow> if is_Exception e
                    then (built @ [NotifyError test_name (p(''error'' \<mapsto> PyExc e))],
                          case notify_error I test_name (p(''error'' \<mapsto> PyExc e)) of None \<Rightarrow> Inr () | Some e' \<Rightarrow> Inl e')
                    else (built, Inl e)
            | Inr b \<Rightarrow> if b then (built, Inr ())
                 else (case notify_element I test_name p of
                         None \<Rightarrow> (built @ [NotifyElement test_name p], Inr ())
                       | Some e \<Rightarrow> if is_Exception e
                            then (built @ [NotifyElement test_name p, NotifyError test_name (p(''error'' \<mapsto> PyExc e))],
                                  case notify_error I test_name (p(''error'' \<mapsto> PyExc e)) of None \<Rightarrow> Inr () | Some e' \<Rightarrow> Inl e')
                            else (built @ [NotifyElement test_name p], Inl e))))"
  using assms
  by (simp add: on_failure_wrapper_def try_body_def except_body_def Let_def
           split: sum.splits option.splits)


lemma on_failure_wrapper_lookup_fails:
  "lookup_test_description I test_name = Inl e \<Longrightarrow>
   on_failure_wrapper I test_name tester element = ([RegistryAccess test_name], Inl e)"
  by (simp add: on_failure_wrapper_def)

text \<open>
  Claim C1, as amended. When the lookup of the test description succeeds, the tester raises,
  on the element, an exception \<open>e\<close> of a class derived from \<open>Exception\<close>, and
  \<open>notify_error\<close> returns: \<open>notify_error\<close> is called exactly once, with the test name and
  the payload in which \<open>'error'\<close> is \<open>e\<close>; \<open>notify_element\<close> is not called; and the
  wrapper returns, no exception leaving it.
\<close>

theorem raising_tester_notifies_error:
  assumes lookup: "lookup_test_description I test_name = Inr description"
    and raises: "fn_call tester element = Inl e"
    and caught: "is_Exception e"
    and notified: "notify_error I test_name
        ((make_message_payload description (fn_name tester) element)(''error'' \<mapsto> PyExc e)) = None"
  shows "on_failure_wrapper I test_name tester element =
          ([RegistryAccess test_name,
            PayloadBuilt (make_message_payload description (fn_name tester) element),
            TesterCall (fn_name tester) element,
            NotifyError test_name
              ((make_message_payload description (fn_name tester) element)(''error'' \<mapsto> PyExc e))],
           Inr ())
       \<and> error_notifications (fst (on_failure_wrapper I test_name tester element)) =
           [(test_name,
             (make_message_payload description (fn_name tester) element)(''error'' \<mapsto> PyExc e))]
       \<and> ((make_message_payload description (fn_name tester) element)(''error'' \<mapsto> PyExc e))
             ''error'' = Some (PyExc e)
       \<and> element_notifications (fst (on_failure_wrapper I test_name tester element)) = []
       \<and> snd (on_failure_wrapper I test_name tester element) = Inr ()"
  using raises caught notified
  by (simp add: on_failure_wrapper_cases [OF lookup] Let_def)

text \<open>The theorem of C1 at \<open>is_positive('seven')\<close>, which raises \<open>TypeError\<close>.\<close>

theorem raising_tester_notifies_error_witness:
  "on_failure_wrapper quiet_integrations ''pscheck_numbers'' is_positive (PyStr ''seven'') =
     ([RegistryAccess ''pscheck_numbers'',
       PayloadBuilt (make_message_payload (PyStr ''numbers are positive'') ''is_positive''
                       (PyStr ''seven'')),
       TesterCall ''is_positive'' (PyStr ''seven''),
       NotifyError ''pscheck_numbers''
         ((make_message_payload (PyStr ''numbers are positive'') ''is_positive''
             (PyStr ''seven''))(''error'' \<mapsto> PyExc (OtherException ''TypeError'')))],
      Inr ())"
proof -
  have lookup: "lookup_test_description quiet_integrations ''pscheck_numbers'' =
                  Inr (PyStr ''numbers are positive'')"
    by (simp add: lookup_test_description_def quiet_integrations_def numbers_integration_def)
  have raises: "fn_call is_positive (PyStr ''seven'') = Inl (OtherException ''TypeError'')"
    by (simp add: is_positive_def)
  have caught: "is_Exception (OtherException ''TypeError'')"
    by simp
  have notified: "notify_error quiet_integrations ''pscheck_numbers''
      ((make_message_payload (PyStr ''numbers are positive'') (fn_name is_positive)
          (PyStr ''seven''))(''error'' \<mapsto> PyExc (OtherException ''TypeError''))) = None"
    by (simp add: quiet_integrations_def)
  from raising_tester_notifies_error [OF lookup raises caught notified]
  show ?thesis by (simp add: is_positive_def)
qed

text \<open>
  Claim C1 as it is stated fails for a tester that raises \<open>SystemExit\<close>: the lookup and
  \<open>notify_error\<close> would succeed, yet \<open>except Exception\<close> does not catch it, so it leaves
  the wrapper and \<open>notify_error\<close> is never called.
\<close>

theorem exiting_tester_escapes:
  "lookup_test_description quiet_integrations ''pscheck_numbers'' =
     Inr (PyStr ''numbers are positive'')
   \<and> fn_call gives_up (PyInt 3) = Inl SystemExit
   \<and> notify_error quiet_integrations ''pscheck_numbers''
       ((make_message_payload (PyStr ''numbers are positive'') ''gives_up''
           (PyInt 3))(''error'' \<mapsto> PyExc SystemExit)) = None
   \<and> on_failure_wrapper quiet_integrations ''pscheck_numbers'' gives_up (PyInt 3) =
       ([RegistryAccess ''pscheck_numbers'',
         PayloadBuilt (make_message_payload (PyStr ''numbers are positive'') ''gives_up''
                         (PyInt 3)),
         TesterCall ''gives_up'' (PyInt 3)],
        Inl SystemExit)
   \<and> error_notifications
       (fst (on_failure_wrapper quiet_integrations ''pscheck_numbers'' gives_up (PyInt 3))) = []"
  by (simp add: on_failure_wrapper_def try_body_def lookup_test_description_def
        quiet_integrations_def numbers_integration_def gives_up_def)



text \<open>
  Claim C2. When the lookup of the test description succeeds, the tester returns \<open>False\<close> on
  the element and \<open>notify_element\<close> does not raise: \<open>notify_element\<close> is called exactly once,
  with a payload that holds the tester's name under \<open>'expect_function'\<close> and the element
  under \<open>'element'\<close>, and \<open>notify_error\<close> is not called.
\<close>

theorem false_result_notifies_element:
  assumes lookup: "lookup_test_description I test_name = Inr description"
    and returns_false: "fn_call tester element = Inr (PyBool False)"
    and notified: "notify_element I test_name
        (make_message_payload description (fn_name tester) element) = None"
  shows "on_failure_wrapper I test_name tester element =
          ([RegistryAccess test_name,
            PayloadBuilt (make_message_payload description (fn_name tester) element),
            TesterCall (fn_name tester) element,
            NotifyElement test_name (make_message_payload description (fn_name tester) element)],
           Inr ())
       \<and> element_notifications (fst (on_failure_wrapper I test_name tester element)) =
           [(test_name, make_message_payload description (fn_name tester) element)]
       \<and> make_message_payload description (fn_name tester) element ''expect_function'' =
           Some (PyStr (fn_name tester))
       \<and> make_message_payload description (fn_name tester) element ''element'' = Some element
       \<and> error_notifications (fst (on_failure_wrapper I test_name tester element)) = []"
  using returns_false notified
  by (simp add: on_failure_wrapper_cases [OF lookup] Let_def make_message_payload_def)

text \<open>The theorem of C2 at \<open>is_positive(-1)\<close>.\<close>

theorem false_result_notifies_element_witness:
  "element_notifications
     (fst (on_failure_wrapper quiet_integrations ''pscheck_numbers'' is_positive (PyInt (- 1)))) =
     [(''pscheck_numbers'',
       make_message_payload (PyStr ''numbers are positive'') ''is_positive'' (PyInt (- 1)))]
   \<and> error_notifications
     (fst (on_failure_wrapper quiet_integrations ''pscheck_numbers'' is_positive (PyInt (- 1)))) = []"
proof -
  have lookup: "lookup_test_description quiet_integrations ''pscheck_numbers'' =
                  Inr (PyStr ''numbers are positive'')"
    by (simp add: lookup_test_description_def quiet_integrations_def numbers_integration_def)
  have returns_false: "fn_call is_positive (PyInt (- 1)) = Inr (PyBool False)"
    by (simp add: is_positive_def)
  have notified: "notify_element quiet_integrations ''pscheck_numbers''
      (make_message_payload (PyStr ''numbers are positive'') (fn_name is_positive)
         (PyInt (- 1))) = None"
    by (simp add: quiet_integrations_def)
  from false_result_notifies_element [OF lookup returns_false notified]
  show ?thesis by (simp add: is_positive_def)
qed

text \<open>
  Claim C5. When the registry has no entry for the test name, the wrapper raises the
  \<open>KeyError\<close> of the lookup: an exception of a class that the handler would catch, but
  raised before the \<open>try\<close>. Whenever the lookup fails, its exception leaves the wrapper,
  the tester is not called and neither notification entry point is.
\<close>

theorem missing_integration_propagates:
  "(registered_integrations I test_name = None \<longrightarrow>
      on_failure_wrapper I test_name tester element =
        ([RegistryAccess test_name], Inl (KeyError test_name))
      \<and> is_Exception (KeyError test_name))
   \<and> (lookup_test_description I test_name = Inl e \<longrightarrow>
      on_failure_wrapper I test_name tester element = ([RegistryAccess test_name], Inl e)
      \<and> tester_calls (fst (on_failure_wrapper I test_name tester element)) = []
      \<and> element_notifications (fst (on_failure_wrapper I test_name tester element)) = []
      \<and> error_notifications (fst (on_failure_wrapper I test_name tester element)) = [])"
  by (simp add: on_failure_wrapper_def lookup_test_description_def)

text \<open>The theorem of C5 with an empty registry.\<close>

theorem missing_integration_propagates_witness:
  "on_failure_wrapper no_integrations ''pscheck_numbers'' is_positive (PyStr ''seven'') =
     ([RegistryAccess ''pscheck_numbers''], Inl (KeyError ''pscheck_numbers''))"
proof -
  have "registered_integrations no_integrations ''pscheck_numbers'' = None"
    by (simp add: no_integrations_def)
  with missing_integration_propagates
    [of no_integrations "''pscheck_numbers''" is_positive "PyStr ''seven''"]
  show ?thesis by blast
qed


lemma tester_called_iff_lookup:
  "tester_calls (fst (on_failure_wrapper I test_name tester element)) \<noteq> [] \<longleftrightarrow>
   (\<exists>description. lookup_test_description I test_name = Inr description)"
  by (cases "lookup_test_description I test_name")
     (simp_all add: on_failure_wrapper_lookup_fails on_failure_wrapper_cases Let_def
        split: sum.splits option.splits)

text \<open>
  Claim C9. \<open>None\<close>, \<open>0\<close>, the empty string and the empty list are falsy. When the tester
  returns a falsy value, the wrapper does exactly what it does for a tester of the same name
  returning \<open>False\<close>, and, the tester having been called, \<open>notify_element\<close> is called once
  with the payload. When the tester is called and returns a truthy value, the wrapper returns
  and neither notification entry point is called.
\<close>

theorem falsy_result_counts_as_false:
  "truth PyNone = Inr False \<and> truth (PyInt 0) = Inr False
   \<and> truth (PyStr []) = Inr False \<and> truth (PyList []) = Inr False
   \<and> (fn_call tester element = Inr v \<and> truth v = Inr False \<longrightarrow>
        on_failure_wrapper I test_name tester element =
          on_failure_wrapper I test_name (tester\<lparr>fn_call := \<lambda>x. Inr (PyBool False)\<rparr>) element
        \<and> (tester_calls (fst (on_failure_wrapper I test_name tester element)) \<noteq> [] \<longrightarrow>
             (\<exists>description.
                lookup_test_description I test_name = Inr description
                \<and> element_notifications (fst (on_failure_wrapper I test_name tester element)) =
                    [(test_name, make_message_payload description (fn_name tester) element)])))
   \<and> (fn_call tester element = Inr v \<and> truth v = Inr True
        \<and> tester_calls (fst (on_failure_wrapper I test_name tester element)) \<noteq> [] \<longrightarrow>
        snd (on_failure_wrapper I test_name tester element) = Inr ()
        \<and> element_notifications (fst (on_failure_wrapper I test_name tester element)) = []
        \<and> error_notifications (fst (on_failure_wrapper I test_name tester element)) = [])"
proof -
  have same: "on_failure_wrapper I test_name tester element =
          on_failure_wrapper I test_name (tester\<lparr>fn_call := \<lambda>x. Inr (PyBool False)\<rparr>) element"
    if "fn_call tester element = Inr v" "truth v = Inr False"
    using that
    by (cases "lookup_test_description I test_name")
       (simp_all add: on_failure_wrapper_lookup_fails on_failure_wrapper_cases Let_def)
  have once: "\<exists>description.
                lookup_test_description I test_name = Inr description
                \<and> element_notifications (fst (on_failure_wrapper I test_name tester element)) =
                    [(test_name, make_message_payload description (fn_name tester) element)]"
    if "fn_call tester element = Inr v" "truth v = Inr False"
      and called: "tester_calls (fst (on_failure_wrapper I test_name tester element)) \<noteq> []"
  proof -
    from called obtain description
      where lookup: "lookup_test_description I test_name = Inr description"
      by (auto simp: tester_called_iff_lookup)
    from that(1,2) have "element_notifications (fst (on_failure_wrapper I test_name tester element)) =
        [(test_name, make_message_payload description (fn_name tester) element)]"
      by (simp add: on_failure_wrapper_cases [OF lookup] Let_def split: option.splits)
    with lookup show ?thesis by blast
  qed
  have success: "snd (on_failure_wrapper I test_name tester element) = Inr ()
        \<and> element_notifications (fst (on_failure_wrapper I test_name tester element)) = []
        \<and> error_notifications (fst (on_failure_wrapper I test_name tester element)) = []"
    if "fn_call tester element = Inr v" "truth v = Inr True"
      and called: "tester_calls (fst (on_failure_wrapper I test_name tester element)) \<noteq> []"
  proof -
    from called obtain description
      where lookup: "lookup_test_description I test_name = Inr description"
      by (auto simp: tester_called_iff_lookup)
    from that(1,2) show ?thesis
      by (simp add: on_failure_wrapper_cases [OF lookup] Let_def)
  qed
  from same once success show ?thesis by simp
qed

text \<open>The theorem of C9 at a tester returning \<open>None\<close> and at \<open>is_positive(3)\<close>.\<close>

theorem falsy_result_counts_as_false_witness:
  "element_notifications
     (fst (on_failure_wrapper quiet_integrations ''pscheck_numbers'' says_nothing (PyInt 3))) =
     [(''pscheck_numbers'',
       make_message_payload (PyStr ''numbers are positive'') ''says_nothing'' (PyInt 3))]
   \<and> snd (on_failure_wrapper quiet_integrations ''pscheck_numbers'' is_positive (PyInt 3)) = Inr ()
   \<and> element_notifications
       (fst (on_failure_wrapper quiet_integrations ''pscheck_numbers'' is_positive (PyInt 3))) = []
   \<and> error_notifications
       (fst (on_failure_wrapper quiet_integrations ''pscheck_numbers'' is_positive (PyInt 3))) = []"
proof -
  have lookup: "lookup_test_description quiet_integrations ''pscheck_numbers'' =
                  Inr (PyStr ''numbers are positive'')"
    by (simp add: lookup_test_description_def quiet_integrations_def numbers_integration_def)
  have none: "fn_call says_nothing (PyInt 3) = Inr PyNone \<and> truth PyNone = Inr False"
    by (simp add: says_nothing_def)
  have called_none: "tester_calls
      (fst (on_failure_wrapper quiet_integrations ''pscheck_numbers'' says_nothing (PyInt 3))) \<noteq> []"
    by (simp add: tester_called_iff_lookup lookup)
  have true: "fn_call is_positive (PyInt 3) = Inr (PyBool True) \<and> truth (PyBool True) = Inr True"
    by (simp add: is_positive_def)
  have called_true: "tester_calls
      (fst (on_failure_wrapper quiet_integrations ''pscheck_numbers'' is_positive (PyInt 3))) \<noteq> []"
    by (simp add: tester_called_iff_lookup lookup)
  from falsy_result_counts_as_false
         [of says_nothing "PyInt 3" PyNone quiet_integrations "''pscheck_numbers''"]
       none called_none lookup
  have first: "element_notifications
     (fst (on_failure_wrapper quiet_integrations ''pscheck_numbers'' says_nothing (PyInt 3))) =
     [(''pscheck_numbers'',
       make_message_payload (PyStr ''numbers are positive'') ''says_nothing'' (PyInt 3))]"
    by (auto simp: says_nothing_def)
  from falsy_result_counts_as_false
         [of is_positive "PyInt 3" "PyBool True" quiet_integrations "''pscheck_numbers''"]
       true called_true
  show ?thesis using first by simp
qed




text \<open>
  Claim C10, as amended. When the tester returns a falsy value and \<open>notify_element\<close> raises an
  exception \<open>e\<close> of a class derived from \<open>Exception\<close>, the handler catches it:
  \<open>notify_error\<close> is called next, once, with the payload in which \<open>'error'\<close> is \<open>e\<close>, and
  the wrapper ends as that call does. So an element on which the tester only returned false
  can produce an error notification.
\<close>

theorem failed_element_notification_notifies_error:
  assumes lookup: "lookup_test_description I test_name = Inr description"
    and falsy: "fn_call tester element = Inr v" "truth v = Inr False"
    and raises: "notify_element I test_name
        (make_message_payload description (fn_name tester) element) = Some e"
    and caught: "is_Exception e"
  shows "fst (on_failure_wrapper I test_name tester element) =
          [RegistryAccess test_name,
           PayloadBuilt (make_message_payload description (fn_name tester) element),
           TesterCall (fn_name tester) element,
           NotifyElement test_name (make_message_payload description (fn_name tester) element),
           NotifyError test_name
             ((make_message_payload description (fn_name tester) element)(''error'' \<mapsto> PyExc e))]
       \<and> error_notifications (fst (on_failure_wrapper I test_name tester element)) =
           [(test_name,
             (make_message_payload description (fn_name tester) element)(''error'' \<mapsto> PyExc e))]
       \<and> ((make_message_payload description (fn_name tester) element)(''error'' \<mapsto> PyExc e))
             ''error'' = Some (PyExc e)
       \<and> snd (on_failure_wrapper I test_name tester element) =
           (case notify_error I test_name
                   ((make_message_payload description (fn_name tester) element)
                      (''error'' \<mapsto> PyExc e)) of
              None \<Rightarrow> Inr ()
            | Some e' \<Rightarrow> Inl e')"
  using falsy raises caught
  by (simp add: on_failure_wrapper_cases [OF lookup] Let_def)

text \<open>The theorem of C10 at \<open>is_positive(-1)\<close>, with a \<open>notify_element\<close> that raises
  \<open>ConnectionError\<close>.\<close>

theorem failed_element_notification_notifies_error_witness:
  "error_notifications
     (fst (on_failure_wrapper broken_element_integrations ''pscheck_numbers'' is_positive
             (PyInt (- 1)))) =
     [(''pscheck_numbers'',
       (make_message_payload (PyStr ''numbers are positive'') ''is_positive'' (PyInt (- 1)))
         (''error'' \<mapsto> PyExc (OtherException ''ConnectionError'')))]
   \<and> snd (on_failure_wrapper broken_element_integrations ''pscheck_numbers'' is_positive
            (PyInt (- 1))) = Inr ()"
proof -
  have lookup: "lookup_test_description broken_element_integrations ''pscheck_numbers'' =
                  Inr (PyStr ''numbers are positive'')"
    by (simp add: lookup_test_description_def broken_element_integrations_def
          numbers_integration_def)
  have returns: "fn_call is_positive (PyInt (- 1)) = Inr (PyBool False)"
    by (simp add: is_positive_def)
  have falsy: "truth (PyBool False) = Inr False"
    by simp
  have raises: "notify_element broken_element_integrations ''pscheck_numbers''
      (make_message_payload (PyStr ''numbers are positive'') (fn_name is_positive)
         (PyInt (- 1))) = Some (OtherException ''ConnectionError'')"
    by (simp add: broken_element_integrations_def)
  have caught: "is_Exception (OtherException ''ConnectionError'')"
    by simp
  from failed_element_notification_notifies_error [OF lookup returns falsy raises caught]
  show ?thesis by (simp add: is_positive_def broken_element_integrations_def)
qed

text \<open>
  Claim C10 as it is stated fails when \<open>notify_element\<close> raises \<open>KeyboardInterrupt\<close>: the
  handler does not catch it, \<open>notify_error\<close> is not called and the exception leaves the
  wrapper.
\<close>

theorem interrupted_element_notification_escapes:
  "lookup_test_description interrupted_element_integrations ''pscheck_numbers'' =
     Inr (PyStr ''numbers are positive'')
   \<and> fn_call is_positive (PyInt (- 1)) = Inr (PyBool False)
   \<and> notify_element interrupted_element_integrations ''pscheck_numbers''
       (make_message_payload (PyStr ''numbers are positive'') ''is_positive'' (PyInt (- 1))) =
       Some KeyboardInterrupt
   \<and> on_failure_wrapper interrupted_element_integrations ''pscheck_numbers'' is_positive
       (PyInt (- 1)) =
       ([RegistryAccess ''pscheck_numbers'',
         PayloadBuilt (make_message_payload (PyStr ''numbers are positive'') ''is_positive''
                         (PyInt (- 1))),
         TesterCall ''is_positive'' (PyInt (- 1)),
         NotifyElement ''pscheck_numbers''
           (make_message_payload (PyStr ''numbers are positive'') ''is_positive'' (PyInt (- 1)))],
        Inl KeyboardInterrupt)
   \<and> error_notifications
       (fst (on_failure_wrapper interrupted_element_integrations ''pscheck_numbers'' is_positive
               (PyInt (- 1)))) = []"
  by (simp add: on_failure_wrapper_def try_body_def lookup_test_description_def Let_def
        interrupted_element_integrations_def numbers_integration_def is_positive_def)

section \<open>What registration does to the table\<close>

lemma registered_testers_register_tester_for_stream:
  "registered_testers (register_tester_for_stream stream tester stream_to_testers) s =
     (if s = stream then registered_testers stream_to_testers s @ [tester]
      else registered_testers stream_to_testers s)"
  by (simp add: registered_testers_def register_tester_for_stream_def split: option.splits)

lemma registered_testers_tests_registrar:
  "registered_testers (tests_registrar stream test_name testers stream_to_testers) s =
     (if s = stream
      then registered_testers stream_to_testers s @ map (Partial test_name) testers
      else registered_testers stream_to_testers s)"
  by (induction testers arbitrary: stream_to_testers)
     (simp_all add: registered_testers_register_tester_for_stream)

lemma grows_refl: "grows t t"
  by (simp add: grows_def)

lemma grows_trans: "grows t u \<Longrightarrow> grows u v \<Longrightarrow> grows t v"
  unfolding grows_def by (meson prefix_order.trans)

lemma grows_register_tester_for_stream:
  "grows stream_to_testers (register_tester_for_stream stream tester stream_to_testers)"
  by (auto simp: grows_def register_tester_for_stream_def split: option.splits)

lemma grows_tests_registrar:
  "grows stream_to_testers (tests_registrar stream test_name testers stream_to_testers)"
proof (induction testers arbitrary: stream_to_testers)
  case Nil
  show ?case by (simp add: grows_refl)
next
  case (Cons tester testers)
  from grows_register_tester_for_stream Cons.IH show ?case
    by (simp, rule grows_trans)
qed

lemma grows_register_loop:
  assumes "\<forall>fn\<in>set fns. \<forall>stack tbl. grows tbl (fst (call_declaration fn stack tbl))"
  shows "grows tbl (fst (snd (register_loop fns stack tbl)))"
  using assms
proof (induction fns arbitrary: tbl)
  case Nil
  show ?case by (simp add: grows_refl)
next
  case (Cons fn fns)
  obtain tbl' r where call: "call_declaration fn stack tbl = (tbl', r)"
    by (cases "call_declaration fn stack tbl")
  from Cons.prems have step: "grows tbl tbl'"
    using call by (metis fst_conv list.set_intros(1))
  show ?case
  proof (cases r)
    case (Inl e)
    with call step show ?thesis by simp
  next
    case (Inr u)
    from Cons.IH [of tbl'] Cons.prems
    have "grows tbl' (fst (snd (register_loop fns stack tbl')))" by simp
    with step have "grows tbl (fst (snd (register_loop fns stack tbl')))"
      by (rule grows_trans)
    with call Inr show ?thesis
      by (cases "register_loop fns stack tbl'") simp
  qed
qed


lemma register_loop_all_return:
  assumes "\<forall>fn\<in>set fns. \<forall>stack tbl. snd (call_declaration fn stack tbl) = Inr ()"
  shows "register_loop fns stack tbl =
           (fns, foldl (\<lambda>t fn. fst (call_declaration fn stack t)) tbl fns, Inr ())"
  using assms
proof (induction fns arbitrary: tbl)
  case Nil
  show ?case by simp
next
  case (Cons fn fns)
  from Cons.prems have "snd (call_declaration fn stack tbl) = Inr ()"
    by simp
  then obtain tbl' where call: "call_declaration fn stack tbl = (tbl', Inr ())"
    by (cases "call_declaration fn stack tbl") simp
  from Cons.prems have "\<forall>fn\<in>set fns. \<forall>stack tbl. snd (call_declaration fn stack tbl) = Inr ()"
    by simp
  from Cons.IH [OF this, of tbl'] call show ?case
    by simp
qed

lemma register_loop_prefix:
  "prefix (fst (register_loop fns stack tbl)) fns"
proof (induction fns arbitrary: tbl)
  case Nil
  show ?case by simp
next
  case (Cons fn fns)
  obtain tbl' r where call: "call_declaration fn stack tbl = (tbl', r)"
    by (cases "call_declaration fn stack tbl")
  show ?case
  proof (cases r)
    case (Inl e)
    with call show ?thesis by simp
  next
    case (Inr u)
    with call Cons.IH [of tbl'] show ?thesis
      by (cases "register_loop fns stack tbl'") simp
  qed
qed

lemma register_loop_returns:
  "snd (snd (register_loop fns stack tbl)) = Inr u \<Longrightarrow> fst (register_loop fns stack tbl) = fns"
proof (induction fns arbitrary: tbl)
  case Nil
  show ?case by simp
next
  case (Cons fn fns)
  obtain tbl' r where call: "call_declaration fn stack tbl = (tbl', r)"
    by (cases "call_declaration fn stack tbl")
  show ?case
  proof (cases r)
    case (Inl e)
    with call Cons.prems show ?thesis by simp
  next
    case (Inr u')
    with call Cons.prems Cons.IH [of tbl'] show ?thesis
      by (cases "register_loop fns stack tbl'") simp
  qed
qed

lemma register_loop_append:
  "register_loop (before @ after) stack tbl =
     (case register_loop before stack tbl of
        (invoked, tbl', Inl e) \<Rightarrow> (invoked, tbl', Inl e)
      | (invoked, tbl', Inr u) \<Rightarrow>
          (case register_loop after stack tbl' of
             (invoked', tbl'', r) \<Rightarrow> (invoked @ invoked', tbl'', r)))"
proof (induction before arbitrary: tbl)
  case Nil
  show ?case by (simp split: prod.splits)
next
  case (Cons fn fns)
  obtain tbl' r where call: "call_declaration fn stack tbl = (tbl', r)"
    by (cases "call_declaration fn stack tbl")
  show ?case
  proof (cases r)
    case (Inl e)
    with call show ?thesis by simp
  next
    case (Inr u)
    with call Cons.IH [of tbl'] show ?thesis
      by (simp split: prod.splits sum.splits)
  qed
qed

lemma register_loop_stops:
  assumes "register_loop before stack tbl = (invoked, tbl', Inr u)"
    and "call_declaration fn stack tbl' = (tbl'', Inl e)"
  shows "register_loop (before @ fn # after) stack tbl = (invoked @ [fn], tbl'', Inl e)"
  using assms by (simp add: register_loop_append)

lemma register_loop_raised:
  "snd (snd (register_loop fns stack tbl)) = Inl e \<Longrightarrow>
   \<exists>before fn after tbl'.
     fns = before @ fn # after
     \<and> register_loop before stack tbl = (before, tbl', Inr ())
     \<and> call_declaration fn stack tbl' = (fst (snd (register_loop fns stack tbl)), Inl e)
     \<and> fst (register_loop fns stack tbl) = before @ [fn]"
proof (induction fns arbitrary: tbl)
  case Nil
  then show ?case by simp
next
  case (Cons g fns)
  obtain tbl1 r where call: "call_declaration g stack tbl = (tbl1, r)"
    by (cases "call_declaration g stack tbl")
  show ?case
  proof (cases r)
    case (Inl e')
    with call Cons.prems have "e' = e" by simp
    with call Inl have
      "g # fns = [] @ g # fns
       \<and> register_loop [] stack tbl = ([], tbl, Inr ())
       \<and> call_declaration g stack tbl = (fst (snd (register_loop (g # fns) stack tbl)), Inl e)
       \<and> fst (register_loop (g # fns) stack tbl) = [] @ [g]"
      by simp
    then show ?thesis by blast
  next
    case (Inr u)
    obtain invoked tbl2 r2 where rest: "register_loop fns stack tbl1 = (invoked, tbl2, r2)"
      by (cases "register_loop fns stack tbl1")
    from call Inr rest Cons.prems have "snd (snd (register_loop fns stack tbl1)) = Inl e"
      by simp
    from Cons.IH [OF this] obtain before fn after tbl'
      where split: "fns = before @ fn # after"
        and ran: "register_loop before stack tbl1 = (before, tbl', Inr ())"
        and raised: "call_declaration fn stack tbl' = (fst (snd (register_loop fns stack tbl1)), Inl e)"
        and invoked: "fst (register_loop fns stack tbl1) = before @ [fn]"
      by blast
    from call Inr rest split ran raised invoked have
      "g # fns = (g # before) @ fn # after
       \<and> register_loop (g # before) stack tbl = (g # before, tbl', Inr ())
       \<and> call_declaration fn stack tbl' = (fst (snd (register_loop (g # fns) stack tbl)), Inl e)
       \<and> fst (register_loop (g # fns) stack tbl) = (g # before) @ [fn]"
      by simp
    then show ?thesis by blast
  qed
qed

lemma tests_registrar_appends:
  assumes "stream_to_testers stream = Some earlier"
  shows "tests_registrar stream test_name testers stream_to_testers stream =
           Some (earlier @ map (Partial test_name) testers)"
proof -
  from grows_tests_registrar [of stream_to_testers stream test_name testers] assms
  obtain stored where stored:
    "tests_registrar stream test_name testers stream_to_testers stream = Some stored"
    by (auto simp: grows_def)
  then have "stored =
      registered_testers (tests_registrar stream test_name testers stream_to_testers) stream"
    by (simp add: registered_testers_def)
  also have "\<dots> = registered_testers stream_to_testers stream @ map (Partial test_name) testers"
    by (simp add: registered_testers_tests_registrar)
  also have "registered_testers stream_to_testers stream = earlier"
    using assms by (simp add: registered_testers_def)
  finally show ?thesis using stored by simp
qed

lemma registered_testers_empty: "registered_testers Map.empty stream = []"
  by (simp add: registered_testers_def)

lemma expect_with_caller:
  "expect (caller # outer) stream = Inr (tests_registrar stream (frame_function caller))"
  by (simp add: expect_def expect_test_name_def get_name_of_expect_caller_def
        distance_to_setup_function_def)

section \<open>What \<open>register\<close> does\<close>

text \<open>
  Claim C3, as amended. When no callable of the list raises, \<open>register\<close> invokes each of them
  exactly once, in list order (the callables invoked are the list itself), and returns the
  table \<open>stream_to_testers\<close> as they left it. In every case the callables invoked are a
  prefix of the list; whenever \<open>register\<close> returns, they are the whole list and the value
  returned is the table; and with no callables it returns the table as it found it, so that
  each call returns the one table that all calls share. When the callables before one have
  returned and that one raises, \<open>register\<close> has invoked them and it, once each and in order,
  invokes none of those after it, and raises its exception; and whenever \<open>register\<close> raises,
  that is how it came about.
\<close>

theorem register_invokes_each_once:
  "((\<forall>fn\<in>set function_list. \<forall>stack tbl. snd (call_declaration fn stack tbl) = Inr ()) \<longrightarrow>
      register function_list callers stream_to_testers =
        (function_list,
         foldl (\<lambda>tbl fn. fst (call_declaration fn (frame_of_register # callers) tbl))
           stream_to_testers function_list,
         Inr (foldl (\<lambda>tbl fn. fst (call_declaration fn (frame_of_register # callers) tbl))
                stream_to_testers function_list)))
   \<and> prefix (fst (register function_list callers stream_to_testers)) function_list
   \<and> (snd (snd (register function_list callers stream_to_testers)) = Inr returned \<longrightarrow>
        fst (register function_list callers stream_to_testers) = function_list
        \<and> returned = fst (snd (register function_list callers stream_to_testers)))
   \<and> register [] callers stream_to_testers = ([], stream_to_testers, Inr stream_to_testers)
   \<and> (register before callers stream_to_testers = (invoked, reached, Inr reached')
        \<and> call_declaration fn (frame_of_register # callers) reached = (left, Inl e) \<longrightarrow>
        register (before @ fn # after) callers stream_to_testers = (before @ [fn], left, Inl e))
   \<and> (snd (snd (register function_list callers stream_to_testers)) = Inl raised \<longrightarrow>
        (\<exists>earlier raising later tbl.
           function_list = earlier @ raising # later
           \<and> register earlier callers stream_to_testers = (earlier, tbl, Inr tbl)
           \<and> call_declaration raising (frame_of_register # callers) tbl =
               (fst (snd (register function_list callers stream_to_testers)), Inl raised)
           \<and> fst (register function_list callers stream_to_testers) = earlier @ [raising]))"
proof -
  obtain invoked' tbl' r
    where loop: "register_loop function_list (frame_of_register # callers) stream_to_testers =
                   (invoked', tbl', r)"
    by (cases "register_loop function_list (frame_of_register # callers) stream_to_testers")
  have all: "register function_list callers stream_to_testers =
        (function_list,
         foldl (\<lambda>tbl fn. fst (call_declaration fn (frame_of_register # callers) tbl))
           stream_to_testers function_list,
         Inr (foldl (\<lambda>tbl fn. fst (call_declaration fn (frame_of_register # callers) tbl))
                stream_to_testers function_list))"
    if "\<forall>fn\<in>set function_list. \<forall>stack tbl. snd (call_declaration fn stack tbl) = Inr ()"
    by (simp add: register_def register_loop_all_return [OF that])
  have in_order: "prefix (fst (register function_list callers stream_to_testers)) function_list"
    using register_loop_prefix [of function_list "frame_of_register # callers" stream_to_testers]
    by (simp add: register_def loop split: sum.splits)
  have returned: "fst (register function_list callers stream_to_testers) = function_list
        \<and> returned = fst (snd (register function_list callers stream_to_testers))"
    if "snd (snd (register function_list callers stream_to_testers)) = Inr returned"
  proof (cases r)
    case (Inl e)
    with that loop show ?thesis by (simp add: register_def)
  next
    case (Inr u)
    with loop
      register_loop_returns [of function_list "frame_of_register # callers" stream_to_testers u]
    have "invoked' = function_list" by simp
    with that loop Inr show ?thesis by (auto simp: register_def)
  qed
  have no_callables: "register [] callers stream_to_testers =
                   ([], stream_to_testers, Inr stream_to_testers)"
    by (simp add: register_def)
  have stops: "register (before @ fn # after) callers stream_to_testers =
                 (before @ [fn], left, Inl e)"
    if ran: "register before callers stream_to_testers = (invoked, reached, Inr reached')"
      and raises: "call_declaration fn (frame_of_register # callers) reached = (left, Inl e)"
  proof -
    from ran have before: "register_loop before (frame_of_register # callers) stream_to_testers =
                     (invoked, reached, Inr ())"
      by (auto simp: register_def split: prod.splits sum.splits)
    with register_loop_returns [of before "frame_of_register # callers" stream_to_testers "()"]
    have "invoked = before" by simp
    with register_loop_stops [OF before raises, of after] show ?thesis
      by (simp add: register_def)
  qed
  have raised: "\<exists>earlier raising later tbl.
           function_list = earlier @ raising # later
           \<and> register earlier callers stream_to_testers = (earlier, tbl, Inr tbl)
           \<and> call_declaration raising (frame_of_register # callers) tbl =
               (fst (snd (register function_list callers stream_to_testers)), Inl raised)
           \<and> fst (register function_list callers stream_to_testers) = earlier @ [raising]"
    if "snd (snd (register function_list callers stream_to_testers)) = Inl raised"
  proof -
    from that loop have r: "r = Inl raised"
      by (cases r) (simp_all add: register_def)
    with loop have
      "snd (snd (register_loop function_list (frame_of_register # callers) stream_to_testers)) =
         Inl raised"
      by simp
    from register_loop_raised [OF this] obtain earlier raising later tbl
      where split: "function_list = earlier @ raising # later"
        and ran: "register_loop earlier (frame_of_register # callers) stream_to_testers =
                    (earlier, tbl, Inr ())"
        and call: "call_declaration raising (frame_of_register # callers) tbl =
                    (fst (snd (register_loop function_list (frame_of_register # callers)
                                 stream_to_testers)), Inl raised)"
        and inv: "fst (register_loop function_list (frame_of_register # callers)
                         stream_to_testers) = earlier @ [raising]"
      by blast
    from ran have "register earlier callers stream_to_testers = (earlier, tbl, Inr tbl)"
      by (simp add: register_def)
    moreover from call loop r have
      "call_declaration raising (frame_of_register # callers) tbl =
         (fst (snd (register function_list callers stream_to_testers)), Inl raised)"
      by (simp add: register_def)
    moreover from inv loop r have
      "fst (register function_list callers stream_to_testers) = earlier @ [raising]"
      by (simp add: register_def)
    ultimately show ?thesis using split by blast
  qed
  from all in_order returned no_callables stops raised show ?thesis by blast
qed

lemma pscheck_numbers_returns:
  "snd (call_declaration pscheck_numbers stack tbl) = Inr ()"
  by (simp add: call_declaration_def pscheck_numbers_def expect_with_caller)

lemma pscheck_exit_returns:
  "snd (call_declaration pscheck_exit stack tbl) = Inr ()"
  by (simp add: call_declaration_def pscheck_exit_def expect_with_caller)

text \<open>The theorem of C3 at \<open>register([pscheck_numbers, pscheck_exit])\<close> on an empty table,
  and at \<open>register([pscheck_numbers, pscheck_broken, pscheck_exit])\<close>.\<close>

theorem register_invokes_each_once_witness:
  "fst (register [pscheck_numbers, pscheck_exit] main_stack Map.empty) =
     [pscheck_numbers, pscheck_exit]
   \<and> snd (snd (register [pscheck_numbers, pscheck_exit] main_stack Map.empty)) =
       Inr (fst (snd (register [pscheck_numbers, pscheck_exit] main_stack Map.empty)))
   \<and> registered_testers
       (fst (snd (register [pscheck_numbers, pscheck_exit] main_stack Map.empty))) numbers =
       [Partial ''pscheck_numbers'' is_positive, Partial ''pscheck_numbers'' says_nothing,
        Partial ''pscheck_exit'' gives_up]
   \<and> register [pscheck_numbers, pscheck_broken, pscheck_exit] main_stack Map.empty =
       ([pscheck_numbers, pscheck_broken],
        tests_registrar numbers ''pscheck_numbers'' [is_positive, says_nothing] Map.empty,
        Inl (OtherException ''NameError''))"
proof -
  have "\<forall>fn\<in>set [pscheck_numbers, pscheck_exit].
          \<forall>stack tbl. snd (call_declaration fn stack tbl) = Inr ()"
    by (simp add: pscheck_numbers_returns pscheck_exit_returns)
  with register_invokes_each_once
         [of "[pscheck_numbers, pscheck_exit]" main_stack Map.empty]
  have "register [pscheck_numbers, pscheck_exit] main_stack Map.empty =
        ([pscheck_numbers, pscheck_exit],
         foldl (\<lambda>tbl fn. fst (call_declaration fn (frame_of_register # main_stack) tbl))
           Map.empty [pscheck_numbers, pscheck_exit],
         Inr (foldl (\<lambda>tbl fn. fst (call_declaration fn (frame_of_register # main_stack) tbl))
                Map.empty [pscheck_numbers, pscheck_exit]))"
    by blast
  then have returns:
    "fst (register [pscheck_numbers, pscheck_exit] main_stack Map.empty) =
       [pscheck_numbers, pscheck_exit]
     \<and> snd (snd (register [pscheck_numbers, pscheck_exit] main_stack Map.empty)) =
         Inr (fst (snd (register [pscheck_numbers, pscheck_exit] main_stack Map.empty)))
     \<and> registered_testers
         (fst (snd (register [pscheck_numbers, pscheck_exit] main_stack Map.empty))) numbers =
         [Partial ''pscheck_numbers'' is_positive, Partial ''pscheck_numbers'' says_nothing,
          Partial ''pscheck_exit'' gives_up]"
    by (simp add: call_declaration_def pscheck_numbers_def pscheck_exit_def expect_with_caller
          registered_testers_register_tester_for_stream registered_testers_empty)
  have ran: "register [pscheck_numbers] main_stack Map.empty =
      ([pscheck_numbers],
       tests_registrar numbers ''pscheck_numbers'' [is_positive, says_nothing] Map.empty,
       Inr (tests_registrar numbers ''pscheck_numbers'' [is_positive, says_nothing] Map.empty))"
    by (simp add: register_def call_declaration_def pscheck_numbers_def expect_with_caller)
  have raises: "call_declaration pscheck_broken (frame_of_register # main_stack)
        (tests_registrar numbers ''pscheck_numbers'' [is_positive, says_nothing] Map.empty) =
      (tests_registrar numbers ''pscheck_numbers'' [is_positive, says_nothing] Map.empty,
       Inl (OtherException ''NameError''))"
    by (simp add: call_declaration_def pscheck_broken_def)
  from register_invokes_each_once
         [where before = "[pscheck_numbers]" and fn = pscheck_broken and after = "[pscheck_exit]"
            and callers = main_stack and stream_to_testers = Map.empty
            and invoked = "[pscheck_numbers]"
            and reached = "tests_registrar numbers ''pscheck_numbers''
                             [is_positive, says_nothing] Map.empty"
            and reached' = "tests_registrar numbers ''pscheck_numbers''
                             [is_positive, says_nothing] Map.empty"
            and left = "tests_registrar numbers ''pscheck_numbers''
                             [is_positive, says_nothing] Map.empty"
            and e = "OtherException ''NameError''"]
       ran raises
  have "register [pscheck_numbers, pscheck_broken, pscheck_exit] main_stack Map.empty =
       ([pscheck_numbers, pscheck_broken],
        tests_registrar numbers ''pscheck_numbers'' [is_positive, says_nothing] Map.empty,
        Inl (OtherException ''NameError''))"
    by simp
  with returns show ?thesis by simp
qed

text \<open>
  Claim C3 as it is stated fails at \<open>register([pscheck_broken, pscheck_numbers])\<close>: the first
  callable raises, the second of the two is never invoked and \<open>register\<close> raises instead of
  returning the table.
\<close>

theorem raising_callable_stops_register:
  "fst (register [pscheck_broken, pscheck_numbers] main_stack Map.empty) = [pscheck_broken]
   \<and> length [pscheck_broken, pscheck_numbers] = 2
   \<and> snd (snd (register [pscheck_broken, pscheck_numbers] main_stack Map.empty)) =
       Inl (OtherException ''NameError'')"
  by (simp add: register_def call_declaration_def pscheck_broken_def)


section \<open>The table only grows\<close>

text \<open>
  Claim C4. Registering testers against a stream that already has a list appends the new
  wrapped testers to that list. No operation removes a key or an element:
  \<open>_register_tester_for_stream\<close> and \<open>tests_registrar\<close> leave a table that has grown from
  the one they found; \<open>expect\<close> does not touch the table, and the function it returns is
  \<open>tests_registrar\<close>; and \<open>register\<close> leaves a table that has grown whenever the callables it
  invokes do, also when one of them raises.
\<close>

theorem table_only_grows:
  "(stream_to_testers stream = Some earlier \<longrightarrow>
      tests_registrar stream test_name testers stream_to_testers stream =
        Some (earlier @ map (Partial test_name) testers))
   \<and> grows stream_to_testers (register_tester_for_stream stream tester stream_to_testers)
   \<and> grows stream_to_testers (tests_registrar stream test_name testers stream_to_testers)
   \<and> (expect stack stream = Inr registrar \<longrightarrow>
        grows stream_to_testers (registrar testers stream_to_testers))
   \<and> ((\<forall>fn\<in>set function_list. \<forall>stack tbl. grows tbl (fst (call_declaration fn stack tbl))) \<longrightarrow>
        grows stream_to_testers (fst (snd (register function_list callers stream_to_testers))))"
proof -
  have closure: "grows stream_to_testers (registrar testers stream_to_testers)"
    if "expect stack stream = Inr registrar"
  proof -
    from that obtain name where "registrar = tests_registrar stream name"
      by (auto simp: expect_def split: sum.splits)
    then show ?thesis by (simp add: grows_tests_registrar)
  qed
  have registered: "grows stream_to_testers
      (fst (snd (register function_list callers stream_to_testers)))"
    if "\<forall>fn\<in>set function_list. \<forall>stack tbl. grows tbl (fst (call_declaration fn stack tbl))"
  proof -
    have "fst (snd (register function_list callers stream_to_testers)) =
          fst (snd (register_loop function_list (frame_of_register # callers) stream_to_testers))"
      by (simp add: register_def split: prod.splits sum.splits)
    with grows_register_loop [OF that] show ?thesis by simp
  qed
  show ?thesis
    using closure registered
    by (simp add: tests_registrar_appends grows_register_tester_for_stream
          grows_tests_registrar)
qed

lemma pscheck_exit_grows:
  "grows tbl (fst (call_declaration pscheck_exit stack tbl))"
  using grows_tests_registrar [of tbl numbers "''pscheck_exit''" "[gives_up]"]
  by (simp add: call_declaration_def pscheck_exit_def expect_with_caller)

text \<open>The theorem of C4 at a table that holds one tester for \<open>numbers\<close>, to which
  \<open>pscheck_exit\<close> adds one.\<close>

theorem table_only_grows_witness:
  "tests_registrar numbers ''pscheck_exit'' [gives_up]
     [numbers \<mapsto> [Partial ''pscheck_numbers'' is_positive]] numbers =
     Some [Partial ''pscheck_numbers'' is_positive, Partial ''pscheck_exit'' gives_up]
   \<and> grows [numbers \<mapsto> [Partial ''pscheck_numbers'' is_positive]]
       (tests_registrar numbers ''pscheck_exit'' [gives_up]
          [numbers \<mapsto> [Partial ''pscheck_numbers'' is_positive]])
   \<and> grows [numbers \<mapsto> [Partial ''pscheck_numbers'' is_positive]]
       (fst (snd (register [pscheck_exit] main_stack
                    [numbers \<mapsto> [Partial ''pscheck_numbers'' is_positive]])))"
proof -
  have stored: "[numbers \<mapsto> [Partial ''pscheck_numbers'' is_positive]] numbers =
                  Some [Partial ''pscheck_numbers'' is_positive]"
    by simp
  have callables: "\<forall>fn\<in>set [pscheck_exit].
                     \<forall>stack tbl. grows tbl (fst (call_declaration fn stack tbl))"
    by (simp add: pscheck_exit_grows)
  have called: "expect (decl_frame pscheck_exit # main_stack) numbers =
                  Inr (tests_registrar numbers ''pscheck_exit'')"
    by (simp add: expect_with_caller pscheck_exit_def)
  from table_only_grows
         [of "[numbers \<mapsto> [Partial ''pscheck_numbers'' is_positive]]" numbers
             "[Partial ''pscheck_numbers'' is_positive]" "''pscheck_exit''" "[gives_up]"
             "Partial ''pscheck_exit'' gives_up" "decl_frame pscheck_exit # main_stack"
             "tests_registrar numbers ''pscheck_exit''" "[pscheck_exit]" main_stack]
       stored callables called
  show ?thesis by simp
qed

section \<open>The correlation name\<close>

text \<open>
  Claim C6. The name that \<open>expect\<close> resolves is the function name of the frame next below
  its own, the frame of the function that called \<open>expect\<close>: not \<open>expect\<close>, not
  \<open>_get_name_of_expect_caller\<close>, and no frame further out. For a callable invoked by
  \<open>register\<close>, whose body runs in the callable's own frame, it is that callable's name.
\<close>

theorem test_name_is_name_of_caller:
  "expect_test_name (caller # outer) = Inr (frame_function caller)
   \<and> expect (caller # outer) stream = Inr (tests_registrar stream (frame_function caller))
   \<and> call_declaration fn callers stream_to_testers =
       decl_body fn (decl_frame fn # callers) stream_to_testers
   \<and> expect_test_name (decl_frame fn # callers) = Inr (frame_function (decl_frame fn))"
  by (simp add: expect_with_caller call_declaration_def expect_test_name_def
        get_name_of_expect_caller_def distance_to_setup_function_def)

text \<open>The theorem of C6 at \<open>pscheck_numbers\<close> invoked by \<open>register\<close>, and at a function
  \<open>helper\<close> that \<open>pscheck_numbers\<close> calls and that calls \<open>expect\<close> itself.\<close>

theorem test_name_is_name_of_caller_witness:
  "expect_test_name (decl_frame pscheck_numbers # frame_of_register # main_stack) =
     Inr ''pscheck_numbers''
   \<and> expect_test_name
       (\<lparr>frame_filename = ''checks.py'', frame_function = ''helper''\<rparr>
        # decl_frame pscheck_numbers # frame_of_register # main_stack) = Inr ''helper''"
  using test_name_is_name_of_caller
          [of "decl_frame pscheck_numbers" "frame_of_register # main_stack"]
        test_name_is_name_of_caller
          [of "\<lparr>frame_filename = ''checks.py'', frame_function = ''helper''\<rparr>"
              "decl_frame pscheck_numbers # frame_of_register # main_stack"]
  by (simp add: pscheck_numbers_def)

section \<open>The order of the stored testers\<close>

text \<open>
  Claim C7. One call of \<open>tests_registrar\<close> stores the wrapped testers after those the
  stream already had, in argument order; the testers of a later call come after those of an
  earlier one; the lists of the other streams are left as they were. Hence calling the stored
  wrapped testers of a stream on an element, in the order of the list, runs the wrapper for
  the testers registered before and then for the new ones in argument order.
\<close>

theorem testers_stored_in_registration_order:
  "registered_testers (tests_registrar stream test_name testers stream_to_testers) stream =
     registered_testers stream_to_testers stream @ map (Partial test_name) testers
   \<and> registered_testers
       (tests_registrar stream later_name later
          (tests_registrar stream earlier_name earlier stream_to_testers)) stream =
       registered_testers stream_to_testers stream
         @ map (Partial earlier_name) earlier @ map (Partial later_name) later
   \<and> (other \<noteq> stream \<longrightarrow>
        registered_testers (tests_registrar stream test_name testers stream_to_testers) other =
          registered_testers stream_to_testers other)
   \<and> map (\<lambda>w. call_wrapped I w element)
       (registered_testers (tests_registrar stream test_name testers stream_to_testers) stream) =
       map (\<lambda>w. call_wrapped I w element) (registered_testers stream_to_testers stream)
         @ map (\<lambda>tester. on_failure_wrapper I test_name tester element) testers"
  by (simp add: registered_testers_tests_registrar comp_def)

text \<open>The theorem of C7 at two registrations against \<open>numbers\<close>.\<close>

theorem testers_stored_in_registration_order_witness:
  "registered_testers
     (tests_registrar numbers ''pscheck_exit'' [gives_up]
        (tests_registrar numbers ''pscheck_numbers'' [is_positive, says_nothing] Map.empty))
     numbers =
     [Partial ''pscheck_numbers'' is_positive, Partial ''pscheck_numbers'' says_nothing,
      Partial ''pscheck_exit'' gives_up]
   \<and> registered_testers
       (tests_registrar numbers ''pscheck_exit'' [gives_up] Map.empty) (Suc numbers) = []"
proof -
  have "Suc numbers \<noteq> numbers" by simp
  with testers_stored_in_registration_order
         [of numbers "''pscheck_exit''" "[gives_up]" Map.empty
             "''pscheck_exit''" "[gives_up]" "''pscheck_numbers''" "[is_positive, says_nothing]"
             "Suc numbers"]
  show ?thesis by (simp add: registered_testers_empty)
qed

end
